theory Spec2Isabelle
  imports Main "HOL-Library.Word"
begin

unbundle bit_operations_syntax

section \<open>oleform.py: a decoder for MS-OFORMS user forms\<close>

text \<open>
  A shallow embedding of \<^verbatim>\<open>oleform.py\<close>. Python integers are \<open>int\<close>, a byte
  string is a list of 8-bit words, an exception is a value of type \<open>error\<close>, and a
  method of the mutable stream object is a function from the object's state to an
  outcome and the state it leaves behind.
\<close>

subsection \<open>Exceptions\<close>

text \<open>
  \<open>OleFormParsingError\<close> is the parser's own exception (line 5); its message
  \<^verbatim>\<open>'{path}:{offset}: {reason}'\<close> is kept as its three parts. The reason of
  \<^verbatim>\<open>check_values\<close> is kept as the field name with the expected and the decoded values
  (the rendering of the two tuples by \<^verbatim>\<open>str\<close> is not modelled). The other constructors
  are the built-in exceptions the code can raise: \<open>AttributeError\<close> carries the name
  of the missing attribute, \<open>StructError\<close> is \<^verbatim>\<open>struct.error\<close>.
\<close>

datatype reason = Invalid string "int list" "int list" | Reason string

datatype error =
    OleFormParsingError string int reason
  | AttributeError string
  | StructError
  | IndexError
  | ValueError
  | ZeroDivisionError
  | IOError

subsection \<open>Python lists and strings\<close>

text \<open>\<^verbatim>\<open>xs[i]\<close> for a non-negative index: \<open>IndexError\<close> out of range.\<close>

definition getitem :: "'a list \<Rightarrow> nat \<Rightarrow> error + 'a" where
  "getitem xs i = (if i < length xs then Inr (xs ! i) else Inl IndexError)"

text \<open>\<^verbatim>\<open>xs.index(x)\<close>: the position of the first occurrence, \<open>ValueError\<close> if there is none.\<close>

fun index :: "'a list \<Rightarrow> 'a \<Rightarrow> error + nat" where
  "index [] x = Inl ValueError"
| "index (y # ys) x =
     (if y = x then Inr 0
      else (case index ys x of Inl e \<Rightarrow> Inl e | Inr i \<Rightarrow> Inr (Suc i)))"

text \<open>\<^verbatim>\<open>sep.join(xs)\<close>.\<close>

fun join :: "string \<Rightarrow> string list \<Rightarrow> string" where
  "join sep [] = []"
| "join sep [x] = x"
| "join sep (x # y # ys) = x @ sep @ join sep (y # ys)"

subsection \<open>Mask (lines 8-50)\<close>

text \<open>
  An instance of a subclass of \<^verbatim>\<open>Mask\<close> has the class attributes \<^verbatim>\<open>_size\<close> and
  \<^verbatim>\<open>_names\<close> and the instance attribute \<^verbatim>\<open>_val\<close>, a list of the integers 0 and 1.
\<close>

record Mask =
  m_size :: nat
  m_names :: "string list"
  m_val :: "int list"

text \<open>\<^verbatim>\<open>__init__\<close>, line 10: \<^verbatim>\<open>[(val & (1<<i))>>i for i in range(self._size)]\<close>.\<close>

definition Mask_init :: "nat \<Rightarrow> string list \<Rightarrow> int \<Rightarrow> Mask" where
  "Mask_init n names val =
     \<lparr>m_size = n, m_names = names,
      m_val = map (\<lambda>i. drop_bit i (val AND push_bit i 1)) [0..<n]\<rparr>"

text \<open>
  \<^verbatim>\<open>__str__\<close>, line 13: the generator \<^verbatim>\<open>self._names[i] for i in range(self._size) if self._val[i]\<close>,
  with both subscripts checked as Python checks them.
\<close>

primrec str_items :: "Mask \<Rightarrow> nat list \<Rightarrow> error + string list" where
  "str_items m [] = Inr []"
| "str_items m (i # is) =
     (case getitem (m_val m) i of
        Inl e \<Rightarrow> Inl e
      | Inr b \<Rightarrow>
          if b \<noteq> 0 then
            (case getitem (m_names m) i of
               Inl e \<Rightarrow> Inl e
             | Inr n \<Rightarrow> (case str_items m is of Inl e \<Rightarrow> Inl e | Inr ns \<Rightarrow> Inr (n # ns)))
          else str_items m is)"

definition Mask_str :: "Mask \<Rightarrow> error + string" where
  "Mask_str m =
     (case str_items m [0..<m_size m] of Inl e \<Rightarrow> Inl e | Inr ns \<Rightarrow> Inr (join '', '' ns))"

text \<open>\<^verbatim>\<open>__getattr__\<close> (line 16) and \<^verbatim>\<open>__getitem__\<close> (line 22) have the same body.\<close>

definition Mask_getattr :: "Mask \<Rightarrow> string \<Rightarrow> error + int" where
  "Mask_getattr m name =
     (case index (m_names m) name of Inl e \<Rightarrow> Inl e | Inr i \<Rightarrow> getitem (m_val m) i)"

definition Mask_getitem :: "Mask \<Rightarrow> string \<Rightarrow> error + int" where
  "Mask_getitem m key =
     (case index (m_names m) key of Inl e \<Rightarrow> Inl e | Inr i \<Rightarrow> getitem (m_val m) i)"

text \<open>
  \<^verbatim>\<open>__len__\<close>, line 19, returns \<^verbatim>\<open>self.size\<close>. Neither an instance nor a class defines
  an attribute \<^verbatim>\<open>size\<close> (the class attribute is \<^verbatim>\<open>_size\<close>), so the lookup falls
  through to \<^verbatim>\<open>__getattr__\<close>.
\<close>

definition Mask_len :: "Mask \<Rightarrow> error + int" where
  "Mask_len m = Mask_getattr m ''size''"

definition FormPropMask_names :: "string list" where
  "FormPropMask_names =
     [''Unused1'', ''fBackColor'', ''fForeColor'', ''fNextAvailableID'', ''Unused2_0'',
      ''Unused2_1'', ''fBooleanProperties'', ''fBooleanProperties'', ''fMousePointer'',
      ''fScrollBars'', ''fDisplayedSize'', ''fLogicalSize'', ''fScrollPosition'',
      ''fGroupCnt'', ''Reserved'', ''fMouseIcon'', ''fCycle'', ''fSpecialEffect'',
      ''fBorderColor'', ''fCaption'', ''fFont'', ''fPicture'', ''fZoom'',
      ''fPictureAlignment'', ''fPictureTiling'', ''fPictureSizeMode'', ''fShapeCookie'',
      ''fDrawBuffer'']"

definition FormPropMask :: "int \<Rightarrow> Mask" where
  "FormPropMask val = Mask_init 28 FormPropMask_names val"

definition SitePropMask_names :: "string list" where
  "SitePropMask_names =
     [''fName'', ''fTag'', ''fID'', ''fHelpContextID'', ''fBitFlags'', ''fObjectStreamSize'',
      ''fTabIndex'', ''fClsidCacheIndex'', ''fPosition'', ''fGroupID'', ''Unused1'',
      ''fControlTipText'', ''fRuntimeLicKey'', ''fControlSource'', ''fRowSource'']"

definition SitePropMask :: "int \<Rightarrow> Mask" where
  "SitePropMask val = Mask_init 15 SitePropMask_names val"

definition MorphDataPropMask_names :: "string list" where
  "MorphDataPropMask_names =
     [''fVariousPropertyBits'', ''fBackColor'', ''fForeColor'', ''fMaxLength'',
      ''fBorderStyle'', ''fScrollBars'', ''fDisplayStyle'', ''fMousePointer'', ''fSize'',
      ''fPasswordChar'', ''fListWidth'', ''fBoundColumn'', ''fTextColumn'', ''fColumnCount'',
      ''fListRows'', ''fcColumnInfo'', ''fMatchEntry'', ''fListStyle'',
      ''fShowDropButtonWhen'', ''UnusedBits1'', ''fDropButtonStyle'', ''fMultiSelect'',
      ''fValue'', ''fCaption'', ''fPicturePosition'', ''fBorderColor'', ''fSpecialEffect'',
      ''fMouseIcon'', ''fPicture'', ''fAccelerator'', ''UnusedBits2'', ''Reserved'',
      ''fGroupName'']"

definition MorphDataPropMask :: "int \<Rightarrow> Mask" where
  "MorphDataPropMask val = Mask_init 33 MorphDataPropMask_names val"

subsection \<open>The byte source\<close>

type_synonym byte = "8 word"

text \<open>
  Modelled from the spec: the stream that \<^verbatim>\<open>ole_file.openstream(path)\<close> returns belongs
  to the compound-file library, which is not part of this file. The spec (section 6) gives
  it as a sequential byte source whose \<^verbatim>\<open>read(n)\<close> returns fewer than \<open>n\<close> bytes only
  at the end. It is a Python file object, so a negative \<open>n\<close> reads up to the end of the
  stream. The state of the source is the list of bytes not read yet; the result is
  the bytes returned and the bytes left.
\<close>

definition source_read :: "int \<Rightarrow> byte list \<Rightarrow> byte list \<times> byte list" where
  "source_read n bs =
     (if n < 0 then (bs, []) else (take (nat n) bs, drop (nat n) bs))"

subsection \<open>ExtendedStream (lines 52-109)\<close>

text \<open>
  The attributes \<^verbatim>\<open>_pos\<close>, \<^verbatim>\<open>_jumps\<close>, \<^verbatim>\<open>_stream\<close>, \<^verbatim>\<open>_path\<close> and
  \<^verbatim>\<open>_next_jump\<close>. An entry of \<^verbatim>\<open>_jumps\<close> is \<open>(start, jump_type, size)\<close>; the list
  grows and shrinks at its end. \<^verbatim>\<open>_next_jump\<close> does not exist before the first call of
  \<^verbatim>\<open>will_jump_to\<close> or \<^verbatim>\<open>will_pad\<close>: that is \<open>None\<close>.
\<close>

record ExtendedStream =
  pos :: int
  jumps :: "(int \<times> bool \<times> int) list"
  stream :: "byte list"
  path :: string
  next_jump :: "(bool \<times> int) option"

text \<open>
  A method call either returns a value or raises; the object keeps the state the call
  left it in either way.
\<close>

type_synonym 'a action = "ExtendedStream \<Rightarrow> (error + 'a) \<times> ExtendedStream"

definition return :: "'a \<Rightarrow> 'a action" where
  "return x s = (Inr x, s)"

definition lift :: "error + 'a \<Rightarrow> 'a action" where
  "lift r s = (r, s)"

text \<open>Two statements in sequence: the second runs only if the first did not raise.\<close>

definition sbind :: "'a action \<Rightarrow> ('a \<Rightarrow> 'b action) \<Rightarrow> 'b action" where
  "sbind m f s = (case m s of (Inl e, s') \<Rightarrow> (Inl e, s') | (Inr x, s') \<Rightarrow> f x s')"

text \<open>\<^verbatim>\<open>for x in xs: f(x)\<close>, \<^verbatim>\<open>for i in range(n): m\<close> and a loop that collects what \<open>m\<close> returns.\<close>

primrec foreach :: "'a list \<Rightarrow> ('a \<Rightarrow> unit action) \<Rightarrow> unit action" where
  "foreach [] f = return ()"
| "foreach (x # xs) f = sbind (f x) (\<lambda>_. foreach xs f)"

primrec repeat :: "nat \<Rightarrow> unit action \<Rightarrow> unit action" where
  "repeat 0 m = return ()"
| "repeat (Suc n) m = sbind m (\<lambda>_. repeat n m)"

primrec collect :: "nat \<Rightarrow> 'a action \<Rightarrow> 'a list action" where
  "collect 0 m = return []"
| "collect (Suc n) m = sbind m (\<lambda>x. sbind (collect n m) (\<lambda>xs. return (x # xs)))"

text \<open>\<^verbatim>\<open>__init__\<close>, lines 53-57, and \<^verbatim>\<open>open\<close>, lines 60-66.\<close>

definition ExtendedStream_init :: "byte list \<Rightarrow> string \<Rightarrow> ExtendedStream" where
  "ExtendedStream_init stream' path' =
     \<lparr>pos = 0, jumps = [], stream = stream', path = path', next_jump = None\<rparr>"

definition ExtendedStream_open :: "(string \<Rightarrow> error + byte list) \<Rightarrow> string \<Rightarrow> error + ExtendedStream" where
  "ExtendedStream_open ole_file path' =
     (case ole_file path' of
        Inl e \<Rightarrow> Inl e
      | Inr stream' \<Rightarrow> Inr (ExtendedStream_init stream' path'))"

text \<open>\<^verbatim>\<open>read\<close>, lines 68-70: \<^verbatim>\<open>self._pos += size; return self._stream.read(size)\<close>.\<close>

definition read :: "int \<Rightarrow> byte list action" where
  "read n s =
     (case source_read n (stream s) of
        (data, rest) \<Rightarrow> (Inr data, s\<lparr>pos := pos s + n, stream := rest\<rparr>))"

text \<open>The statement \<^verbatim>\<open>stream.read(n)\<close>, whose value is dropped.\<close>

definition skip :: "int \<Rightarrow> unit action" where
  "skip n = sbind (read n) (\<lambda>_. return ())"

text \<open>\<^verbatim>\<open>will_jump_to\<close> and \<^verbatim>\<open>will_pad\<close>, lines 72-78.\<close>

definition will_jump_to :: "int \<Rightarrow> unit action" where
  "will_jump_to n s = (Inr (), s\<lparr>next_jump := Some (True, n)\<rparr>)"

definition will_pad :: "int \<Rightarrow> unit action" where
  "will_pad pad s = (Inr (), s\<lparr>next_jump := Some (False, pad)\<rparr>)"

text \<open>\<^verbatim>\<open>__enter__\<close>, lines 80-82.\<close>

definition enter :: "unit action" where
  "enter s =
     (case next_jump s of
        None \<Rightarrow> (Inl (AttributeError ''_next_jump''), s)
      | Some (jump_type, n) \<Rightarrow> (Inr (), s\<lparr>jumps := jumps s @ [(pos s, jump_type, n)]\<rparr>))"

text \<open>
  \<^verbatim>\<open>__exit__\<close>, lines 84-92. The argument is the exception that left the body of the
  \<^verbatim>\<open>with\<close> statement, if there was one. \<^verbatim>\<open>self._jumps.pop()\<close> on an empty list and
  \<^verbatim>\<open>%\<close> by zero raise. The method returns \<^verbatim>\<open>None\<close> on every path.
\<close>

definition exit :: "error option \<Rightarrow> unit action" where
  "exit exc s =
     (case exc of
        Some e \<Rightarrow> (Inr (), s)
      | None \<Rightarrow>
          (if jumps s = [] then (Inl IndexError, s)
           else
             (case last (jumps s) of
                (start, jump_type, n) \<Rightarrow>
                  let s1 = s\<lparr>jumps := butlast (jumps s)\<rparr> in
                  if jump_type then skip (n - (pos s1 - start)) s1
                  else if n = 0 then (Inl ZeroDivisionError, s1)
                  else
                    let align = (pos s1 - start) mod n in
                    if align \<noteq> 0 then skip (n - align) s1 else (Inr (), s1))))"

text \<open>
  The end of a \<^verbatim>\<open>with\<close> statement, given how its body ended: \<^verbatim>\<open>__exit__\<close> is called
  with the exception of the body or with none. Since \<^verbatim>\<open>__exit__\<close> returns \<^verbatim>\<open>None\<close>, an
  exception of the body is raised again after it; an exception of \<^verbatim>\<open>__exit__\<close> itself
  takes its place.
\<close>

definition leave :: "(error + 'a) \<times> ExtendedStream \<Rightarrow> (error + 'a) \<times> ExtendedStream" where
  "leave r =
     (case r of
        (Inl e, s) \<Rightarrow>
          (case exit (Some e) s of (Inl e', s') \<Rightarrow> (Inl e', s') | (Inr _, s') \<Rightarrow> (Inl e, s'))
      | (Inr x, s) \<Rightarrow>
          (case exit None s of (Inl e', s') \<Rightarrow> (Inl e', s') | (Inr _, s') \<Rightarrow> (Inr x, s')))"

text \<open>
  \<^verbatim>\<open>with stream.will_jump_to(n): body\<close> and \<^verbatim>\<open>with stream.will_pad(): body\<close>: the
  context expression \<open>ctx\<close> is evaluated, \<^verbatim>\<open>__enter__\<close> is called, the body runs, and the
  statement ends as \<open>leave\<close> says.
\<close>

definition with_region :: "unit action \<Rightarrow> 'a action \<Rightarrow> 'a action" where
  "with_region ctx body s =
     (case sbind ctx (\<lambda>_. enter) s of
        (Inl e, s1) \<Rightarrow> (Inl e, s1)
      | (Inr _, s1) \<Rightarrow> leave (body s1))"

subsection \<open>struct.unpack\<close>

text \<open>
  The formats of this file: a byte order, \<^verbatim>\<open><\<close> or \<^verbatim>\<open>>\<close>, then the codes
  \<^verbatim>\<open>B\<close>, \<^verbatim>\<open>H\<close>, \<^verbatim>\<open>L\<close> and \<^verbatim>\<open>Q\<close> of unsigned integers of 1, 2, 4 and 8 bytes.
  \<^verbatim>\<open>struct.unpack\<close> raises \<^verbatim>\<open>struct.error\<close> unless the buffer has exactly the size of
  the format; the result is the tuple of the decoded integers, here a list.
\<close>

fun le_int :: "byte list \<Rightarrow> int" where
  "le_int [] = 0"
| "le_int (b # bs) = uint b + 256 * le_int bs"

definition code_width :: "char \<Rightarrow> nat option" where
  "code_width c =
     (if c = CHR ''B'' then Some 1
      else if c = CHR ''H'' then Some 2
      else if c = CHR ''L'' then Some 4
      else if c = CHR ''Q'' then Some 8
      else None)"

fun unpack_fields :: "bool \<Rightarrow> string \<Rightarrow> byte list \<Rightarrow> int list option" where
  "unpack_fields little [] data = (if data = [] then Some [] else None)"
| "unpack_fields little (c # cs) data =
     (case code_width c of
        None \<Rightarrow> None
      | Some w \<Rightarrow>
          if length data < w then None
          else
            (case unpack_fields little cs (drop w data) of
               None \<Rightarrow> None
             | Some vs \<Rightarrow>
                 Some ((if little then le_int (take w data) else le_int (rev (take w data))) # vs)))"

definition struct_unpack :: "string \<Rightarrow> byte list \<Rightarrow> error + int list" where
  "struct_unpack format data =
     (case format of
        [] \<Rightarrow> Inl StructError
      | c # cs \<Rightarrow>
          if c = CHR ''<'' \<or> c = CHR ''>'' then
            (case unpack_fields (c = CHR ''<'') cs data of
               None \<Rightarrow> Inl StructError
             | Some vs \<Rightarrow> Inr vs)
          else Inl StructError)"

text \<open>\<^verbatim>\<open>unpacks\<close> and \<^verbatim>\<open>unpack\<close>, lines 94-98.\<close>

definition unpacks :: "string \<Rightarrow> int \<Rightarrow> int list action" where
  "unpacks format n = sbind (read n) (\<lambda>data. lift (struct_unpack format data))"

definition unpack :: "string \<Rightarrow> int \<Rightarrow> int action" where
  "unpack format n = sbind (unpacks format n) (\<lambda>vs. lift (getitem vs 0))"

text \<open>\<^verbatim>\<open>raise_error\<close>, lines 100-101, and \<^verbatim>\<open>check_values\<close>, \<^verbatim>\<open>check_value\<close>, lines 103-109.\<close>

definition raise_error :: "reason \<Rightarrow> int \<Rightarrow> 'a action" where
  "raise_error why back s = (Inl (OleFormParsingError (path s) (pos s - back) why), s)"

definition check_values :: "string \<Rightarrow> string \<Rightarrow> int \<Rightarrow> int list \<Rightarrow> unit action" where
  "check_values name format n expected =
     sbind (unpacks format n) (\<lambda>val.
       if val \<noteq> expected then raise_error (Invalid name expected val) 0 else return ())"

definition check_value :: "string \<Rightarrow> string \<Rightarrow> int \<Rightarrow> int \<Rightarrow> unit action" where
  "check_value name format n expected = check_values name format n [expected]"

subsection \<open>Leaf decoders (lines 112-166)\<close>

text \<open>
  Two statement forms that recur: \<^verbatim>\<open>if propmask.NAME: body\<close>, and the loop body
  \<^verbatim>\<open>if propmask[prop]: stream.read(n)\<close>.
\<close>

definition when_attr :: "Mask \<Rightarrow> string \<Rightarrow> unit action \<Rightarrow> unit action" where
  "when_attr propmask name body =
     sbind (lift (Mask_getattr propmask name)) (\<lambda>b. if b \<noteq> 0 then body else return ())"

definition read_if :: "Mask \<Rightarrow> int \<Rightarrow> string \<Rightarrow> unit action" where
  "read_if propmask n prop =
     sbind (lift (Mask_getitem propmask prop)) (\<lambda>b. if b \<noteq> 0 then skip n else return ())"

definition consume_TextProps :: "unit action" where
  "consume_TextProps =
     sbind (check_values ''TextProps (versions)'' ''<BB'' 2 [0, 2]) (\<lambda>_.
     sbind (unpack ''<H'' 2) (\<lambda>cbTextProps.
     skip cbTextProps))"

definition consume_GuidAndFont :: "unit action" where
  "consume_GuidAndFont =
     sbind (unpacks ''<LHH'' 8) (\<lambda>a.
     sbind (unpacks ''>Q'' 8) (\<lambda>b.
     let UUIDS = a @ b in
     if UUIDS = [199447043, 36753, 4558, 11376937813817407569] then
       sbind (check_value ''StdFont (version)'' ''<B'' 1 1) (\<lambda>_.
       sbind (skip 9) (\<lambda>_.
       sbind (unpack ''<B'' 1) (\<lambda>bFaceLen.
       skip bFaceLen)))
     else if UUIDS = [2948729120, 55886, 4558, 13349514450607572916] then
       consume_TextProps
     else raise_error (Reason ''Invalid GuidAndFont (UUID)'') 16))"

definition consume_GuidAndPicture :: "unit action" where
  "consume_GuidAndPicture =
     sbind (check_values ''GuidAndPicture (UUID part 1)'' ''<LHH'' 8 [199447044, 36753, 4558]) (\<lambda>_.
     sbind (check_value ''GuidAndPicture (UUID part 1)'' ''>Q'' 8 11376937813817407569) (\<lambda>_.
     sbind (check_value ''StdPicture (Preamble)'' ''<L'' 4 0x0000746C) (\<lambda>_.
     sbind (unpack ''<L'' 4) (\<lambda>n.
     skip n))))"

text \<open>
  Line 149 calls \<^verbatim>\<open>stream.aise_error\<close>. \<^verbatim>\<open>ExtendedStream\<close> has no such attribute and no
  \<^verbatim>\<open>__getattr__\<close>, so the attribute lookup raises \<^verbatim>\<open>AttributeError\<close> before anything is
  called.
\<close>

definition consume_CountOfBytesWithCompressionFlag :: "int action" where
  "consume_CountOfBytesWithCompressionFlag =
     sbind (unpack ''<L'' 4) (\<lambda>count.
     if count AND 0x80000000 = 0 \<and> count \<noteq> 0 then lift (Inl (AttributeError ''aise_error''))
     else return (count AND 0x7FFFFFFF))"

definition consume_SiteClassInfo :: "unit action" where
  "consume_SiteClassInfo =
     sbind (check_value ''SiteClassInfo (version)'' ''<H'' 2 0) (\<lambda>_.
     sbind (unpack ''<H'' 2) (\<lambda>cbClassTable.
     skip cbClassTable))"

text \<open>
  Line 160 unpacks the tuple into \<^verbatim>\<open>(depth, mixed)\<close>, which raises \<^verbatim>\<open>ValueError\<close> for a
  tuple of another length.
\<close>

definition consume_FormObjectDepthTypeCount :: "int action" where
  "consume_FormObjectDepthTypeCount =
     sbind (unpacks ''<BB'' 2) (\<lambda>vs.
     case vs of
       [depth, mixed] \<Rightarrow>
         if mixed AND 0x80 \<noteq> 0 then
           sbind (check_value ''FormObjectDepthTypeCount (SITE_TYPE)'' ''<B'' 1 1) (\<lambda>_.
           return (mixed XOR 0x80))
         else if mixed \<noteq> 1 then
           raise_error (Invalid ''FormObjectDepthTypeCount (SITE_TYPE)'' [1] [mixed]) 0
         else return 1
     | _ \<Rightarrow> lift (Inl ValueError))"

subsection \<open>OleSiteConcreteControl (lines 168-201)\<close>

text \<open>The dictionary that line 200 returns, one field for each key.\<close>

record site =
  v_name :: "byte list"
  v_tag :: "byte list"
  v_id :: int
  v_tabindex :: int
  v_ClsidCacheIndex :: int

definition consume_OleSiteConcreteControl :: "site action" where
  "consume_OleSiteConcreteControl =
     sbind (check_value ''OleSiteConcreteControl (version)'' ''<H'' 2 0) (\<lambda>_.
     sbind (unpack ''<H'' 2) (\<lambda>cbSite.
     with_region (will_jump_to cbSite)
       (sbind (unpack ''<L'' 4) (\<lambda>v.
        let propmask = SitePropMask v in
        sbind (lift (Mask_getattr propmask ''fName'')) (\<lambda>fName.
        sbind (if fName \<noteq> 0 then consume_CountOfBytesWithCompressionFlag else return 0) (\<lambda>name_len.
        sbind (lift (Mask_getattr propmask ''fTag'')) (\<lambda>fTag.
        sbind (if fTag \<noteq> 0 then consume_CountOfBytesWithCompressionFlag else return 0) (\<lambda>tag_len.
        sbind (lift (Mask_getattr propmask ''fID'')) (\<lambda>fID.
        sbind (if fID \<noteq> 0 then unpack ''<L'' 4 else return 0) (\<lambda>id'.
        sbind (foreach [''fHelpContextID'', ''fBitFlags'', ''fObjectStreamSize'']
                 (read_if propmask 4)) (\<lambda>_.
        sbind (with_region (will_pad 4)
                 (sbind (lift (Mask_getattr propmask ''fTabIndex'')) (\<lambda>fTabIndex.
                  sbind (if fTabIndex \<noteq> 0 then unpack ''<H'' 2 else return 0) (\<lambda>tabindex.
                  sbind (lift (Mask_getattr propmask ''fClsidCacheIndex'')) (\<lambda>fClsidCacheIndex.
                  sbind (if fClsidCacheIndex \<noteq> 0 then unpack ''<H'' 2 else return 0) (\<lambda>ClsidCacheIndex.
                  sbind (when_attr propmask ''fGroupID'' (skip 2)) (\<lambda>_.
                  return (tabindex, ClsidCacheIndex)))))))) (\<lambda>(tabindex, ClsidCacheIndex).
        sbind (foreach [''fControlTipText'', ''fRuntimeLicKey'', ''fControlSource'', ''fRowSource'']
                 (read_if propmask 4)) (\<lambda>_.
        sbind (read name_len) (\<lambda>name.
        sbind (read tag_len) (\<lambda>tag.
        return \<lparr>v_name = name, v_tag = tag, v_id = id', v_tabindex = tabindex,
                v_ClsidCacheIndex = ClsidCacheIndex\<rparr>)))))))))))))))"

subsection \<open>FormControl (lines 203-237)\<close>

text \<open>
  Lines 205-231: everything before the loop over the depth and type records. The value
  is \<^verbatim>\<open>CountOfSites\<close>; line 231 unpacks a tuple of two.
\<close>

definition FormControl_header :: "int action" where
  "FormControl_header =
     sbind (check_values ''FormControl (versions)'' ''<BB'' 2 [0, 4]) (\<lambda>_.
     sbind (unpack ''<H'' 2) (\<lambda>cbform.
     sbind (with_region (will_jump_to cbform)
              (sbind (unpack ''<L'' 4) (\<lambda>v.
               let propmask = FormPropMask v in
               sbind (foreach [''fBackColor'', ''fForeColor'', ''fNextAvailableID'']
                        (read_if propmask 4)) (\<lambda>_.
               sbind (lift (Mask_getattr propmask ''fBooleanProperties'')) (\<lambda>fBooleanProperties.
               sbind (if fBooleanProperties \<noteq> 0 then
                        sbind (unpack ''<L'' 4) (\<lambda>BooleanProperties.
                        return (drop_bit 15 (BooleanProperties AND push_bit 15 1)))
                      else return 0) (\<lambda>FORM_FLAG_DONTSAVECLASSTABLE.
               return (propmask, FORM_FLAG_DONTSAVECLASSTABLE))))))) (\<lambda>(propmask, FORM_FLAG_DONTSAVECLASSTABLE).
     sbind (when_attr propmask ''fMouseIcon'' consume_GuidAndPicture) (\<lambda>_.
     sbind (when_attr propmask ''fFont'' consume_GuidAndFont) (\<lambda>_.
     sbind (when_attr propmask ''fPicture'' consume_GuidAndPicture) (\<lambda>_.
     sbind (if FORM_FLAG_DONTSAVECLASSTABLE = 0 then
              sbind (unpack ''<H'' 2) (\<lambda>CountOfSiteClassInfo.
              repeat (nat CountOfSiteClassInfo) consume_SiteClassInfo)
            else return ()) (\<lambda>_.
     sbind (unpacks ''<LL'' 8) (\<lambda>vs.
     case vs of
       [CountOfSites, CountOfBytes] \<Rightarrow> return CountOfSites
     | _ \<Rightarrow> lift (Inl ValueError)))))))))"

text \<open>
  Lines 234-235, the \<^verbatim>\<open>while\<close> loop. Nothing in the loop bounds the number of its
  rounds, so the model is a partial function: \<open>None\<close> is a loop that never ends. The
  value is the last \<^verbatim>\<open>remaining_SiteDepthsAndTypes\<close>.
\<close>

partial_function (option) depth_type_loop ::
  "int \<Rightarrow> ExtendedStream \<Rightarrow> ((error + int) \<times> ExtendedStream) option" where
  "depth_type_loop remaining_SiteDepthsAndTypes s =
     (if remaining_SiteDepthsAndTypes > 0 then
        (case consume_FormObjectDepthTypeCount s of
           (Inl e, s') \<Rightarrow> Some (Inl e, s')
         | (Inr n, s') \<Rightarrow> depth_type_loop (remaining_SiteDepthsAndTypes - n) s')
      else Some (Inr remaining_SiteDepthsAndTypes, s))"

declare depth_type_loop.simps [code]

text \<open>Lines 232-235: the loop inside \<^verbatim>\<open>with stream.will_pad():\<close>.\<close>

definition depth_type_region ::
  "int \<Rightarrow> ExtendedStream \<Rightarrow> ((error + int) \<times> ExtendedStream) option" where
  "depth_type_region CountOfSites s =
     (case sbind (will_pad 4) (\<lambda>_. enter) s of
        (Inl e, s1) \<Rightarrow> Some (Inl e, s1)
      | (Inr _, s1) \<Rightarrow>
          (case depth_type_loop CountOfSites s1 of
             None \<Rightarrow> None
           | Some r \<Rightarrow> Some (leave r)))"

text \<open>
  The generator as \<^verbatim>\<open>list(...)\<close> runs it (line 289): the header, the loop, then
  \<^verbatim>\<open>CountOfSites\<close> site records (lines 236-237).
\<close>

definition consume_FormControl ::
  "ExtendedStream \<Rightarrow> ((error + site list) \<times> ExtendedStream) option" where
  "consume_FormControl s =
     (case FormControl_header s of
        (Inl e, s1) \<Rightarrow> Some (Inl e, s1)
      | (Inr CountOfSites, s1) \<Rightarrow>
          (case depth_type_region CountOfSites s1 of
             None \<Rightarrow> None
           | Some (Inl e, s2) \<Rightarrow> Some (Inl e, s2)
           | Some (Inr _, s2) \<Rightarrow>
               Some (collect (nat CountOfSites) consume_OleSiteConcreteControl s2)))"

subsection \<open>MorphDataControl (lines 239-285)\<close>

definition consume_MorphDataControl :: "byte list action" where
  "consume_MorphDataControl =
     sbind (check_values ''MorphDataControl (versions)'' ''<BB'' 2 [0, 2]) (\<lambda>_.
     sbind (unpack ''<H'' 2) (\<lambda>cbMorphData.
     sbind (with_region (will_jump_to cbMorphData)
              (sbind (unpack ''<Q'' 8) (\<lambda>v.
               let propmask = MorphDataPropMask v in
               sbind (foreach [''fVariousPropertyBits'', ''fBackColor'', ''fForeColor'', ''fMaxLength'']
                        (read_if propmask 4)) (\<lambda>_.
               sbind (with_region (will_pad 4)
                        (foreach [''fBorderStyle'', ''fScrollBars'', ''fDisplayStyle'', ''fMousePointer'']
                           (read_if propmask 1))) (\<lambda>_.
               sbind (foreach [''fPasswordChar'', ''fListWidth'', ''fBoundColumn'', ''fTextColumn'',
                               ''fColumnCount'', ''fListRows'']
                        (read_if propmask 4)) (\<lambda>_.
               sbind (with_region (will_pad 4)
                        (sbind (when_attr propmask ''fcColumnInfo'' (skip 2)) (\<lambda>_.
                         foreach [''fMatchEntry'', ''fListStyle'', ''fShowDropButtonWhen'',
                                  ''fDropButtonStyle'', ''fMultiSelect'']
                           (read_if propmask 1)))) (\<lambda>_.
               sbind (lift (Mask_getattr propmask ''fValue'')) (\<lambda>fValue.
               sbind (if fValue \<noteq> 0 then consume_CountOfBytesWithCompressionFlag
                      else return 0) (\<lambda>value_size.
               sbind (foreach [''fCaption'', ''fPicturePosition'', ''fBorderColor'', ''fSpecialEffect'',
                               ''fMouseIcon'', ''fPicture'', ''fAccelerator'', ''fGroupName'']
                        (read_if propmask 4)) (\<lambda>_.
               sbind (skip 8) (\<lambda>_.
               sbind (read value_size) (\<lambda>val.
               return (propmask, val))))))))))))) (\<lambda>(propmask, val).
     sbind (when_attr propmask ''fMouseIcon'' consume_GuidAndPicture) (\<lambda>_.
     sbind (when_attr propmask ''fPicture'' consume_GuidAndPicture) (\<lambda>_.
     sbind consume_TextProps (\<lambda>_.
     return val))))))"

subsection \<open>extract_OleFormVariables (lines 287-300)\<close>

text \<open>A site dictionary after line 297 or 299 has given it the key \<^verbatim>\<open>'value'\<close>.\<close>

record variable = site +
  v_value :: "byte list option"

definition set_value :: "site \<Rightarrow> byte list option \<Rightarrow> variable" where
  "set_value var x =
     \<lparr>v_name = v_name var, v_tag = v_tag var, v_id = v_id var, v_tabindex = v_tabindex var,
      v_ClsidCacheIndex = v_ClsidCacheIndex var, v_value = x\<rparr>"

text \<open>
  Lines 292-299, the loop over the sites; the state is the stream \<^verbatim>\<open>data\<close>. The
  message that line 296 prints is not modelled.
\<close>

primrec attach_values :: "site list \<Rightarrow> variable list action" where
  "attach_values [] = return []"
| "attach_values (var # variables) =
     (if v_ClsidCacheIndex var \<noteq> 23 then
        sbind (attach_values variables) (\<lambda>rest. return (set_value var None # rest))
      else
        sbind consume_MorphDataControl (\<lambda>val.
        sbind (attach_values variables) (\<lambda>rest. return (set_value var (Some val) # rest))))"

text \<open>
  The whole function. \<open>ole_file\<close> gives the bytes of the stream at a path, or the
  exception that \<^verbatim>\<open>openstream\<close> raises.
\<close>

definition extract_OleFormVariables ::
  "(string \<Rightarrow> error + byte list) \<Rightarrow> string list \<Rightarrow> (error + variable list) option" where
  "extract_OleFormVariables ole_file stream_dir =
     (case ExtendedStream_open ole_file (join ''/'' (stream_dir @ [''f''])) of
        Inl e \<Rightarrow> Some (Inl e)
      | Inr control \<Rightarrow>
          (case consume_FormControl control of
             None \<Rightarrow> None
           | Some (Inl e, _) \<Rightarrow> Some (Inl e)
           | Some (Inr variables, _) \<Rightarrow>
               (case ExtendedStream_open ole_file (join ''/'' (stream_dir @ [''o''])) of
                  Inl e \<Rightarrow> Some (Inl e)
                | Inr data \<Rightarrow> Some (fst (attach_values variables data)))))"

subsection \<open>Sequences of calls on a stream\<close>

text \<open>
  What a caller can do with the cursor: read \<open>n\<close> bytes, open a region (the head of a
  \<^verbatim>\<open>with\<close> statement: \<^verbatim>\<open>will_jump_to(n)\<close> or \<^verbatim>\<open>will_pad(n)\<close>, then \<^verbatim>\<open>__enter__\<close>), and
  close the innermost region without an exception (\<^verbatim>\<open>__exit__(None, None, None)\<close>).
\<close>

datatype cursor_op = Read int | OpenRegion bool int | CloseRegion

fun apply_op :: "cursor_op \<Rightarrow> unit action" where
  "apply_op (Read n) = skip n"
| "apply_op (OpenRegion jump_type n) =
     sbind (if jump_type then will_jump_to n else will_pad n) (\<lambda>_. enter)"
| "apply_op CloseRegion = exit None"

text \<open>
  The positions that a sequence of calls goes through, the first one included. An
  exception ends the sequence.
\<close>

fun positions :: "cursor_op list \<Rightarrow> ExtendedStream \<Rightarrow> int list" where
  "positions [] s = [pos s]"
| "positions (c # cs) s =
     pos s # (case apply_op c s of (Inl e, s') \<Rightarrow> [pos s'] | (Inr _, s') \<Rightarrow> positions cs s')"

text \<open>
  A call that stays within the declared sizes: a read of a non-negative number of bytes;
  any opening; a closing of a jump region of size \<open>n\<close> in which at most \<open>n\<close> bytes were
  consumed, or of a padding region whose modulus is not negative.
\<close>

definition op_within :: "cursor_op \<Rightarrow> ExtendedStream \<Rightarrow> bool" where
  "op_within c s =
     (case c of
        Read n \<Rightarrow> 0 \<le> n
      | OpenRegion jump_type n \<Rightarrow> True
      | CloseRegion \<Rightarrow>
          (if jumps s = [] then True
           else
             (case last (jumps s) of
                (start, jump_type, n) \<Rightarrow> if jump_type then pos s - start \<le> n else 0 \<le> n)))"

fun all_within :: "cursor_op list \<Rightarrow> ExtendedStream \<Rightarrow> bool" where
  "all_within [] s = True"
| "all_within (c # cs) s =
     (op_within c s \<and>
      (case apply_op c s of (Inl e, s') \<Rightarrow> True | (Inr _, s') \<Rightarrow> all_within cs s'))"

subsection \<open>The values that the sites receive\<close>

text \<open>
  The site list with the values of the sites of index 23 filled in from a list of
  decoded values, in order, and no value for every other site.
\<close>

fun fill_values :: "site list \<Rightarrow> byte list list \<Rightarrow> variable list" where
  "fill_values [] vals = []"
| "fill_values (var # variables) vals =
     (if v_ClsidCacheIndex var \<noteq> 23 then set_value var None # fill_values variables vals
      else
        (case vals of
           [] \<Rightarrow> []
         | val # rest \<Rightarrow> set_value var (Some val) # fill_values variables rest))"

section \<open>Properties\<close>

subsection \<open>Masks\<close>

lemma bit_extract: "drop_bit i ((v::int) AND push_bit i 1) = of_bool (bit v i)"
proof -
  have "drop_bit i (v AND push_bit i 1) = drop_bit i v AND 1"
    by (simp add: drop_bit_exp_eq)
  also have "\<dots> = of_bool (bit v i)"
    by (simp add: and_one_eq bit_iff_odd_drop_bit mod_2_eq_odd)
  finally show ?thesis .
qed

lemma m_val_Mask_init: "m_val (Mask_init n names v) = map (\<lambda>i. of_bool (bit v i)) [0..<n]"
  unfolding Mask_init_def bit_extract by simp

lemma m_names_Mask_init: "m_names (Mask_init n names v) = names"
  by (simp add: Mask_init_def)

lemma m_size_Mask_init: "m_size (Mask_init n names v) = n"
  by (simp add: Mask_init_def)

lemma getitem_val_Mask_init:
  "i < n \<Longrightarrow> getitem (m_val (Mask_init n names v)) i = Inr (of_bool (bit v i))"
  by (simp add: m_val_Mask_init getitem_def)

lemma str_items_in_range:
  "\<forall>i \<in> set js. i < length (m_val m) \<and> i < length (m_names m) \<Longrightarrow>
   str_items m js = Inr (map (\<lambda>i. m_names m ! i) (filter (\<lambda>i. m_val m ! i \<noteq> 0) js))"
  by (induction js) (simp_all add: getitem_def)

lemma Mask_str_Mask_init:
  assumes "length names = n"
  shows "Mask_str (Mask_init n names v) =
         Inr (join '', '' (map (\<lambda>i. names ! i) (filter (bit v) [0..<n])))"
proof -
  let ?m = "Mask_init n names v"
  have len: "length (m_val ?m) = n" "m_names ?m = names" "m_size ?m = n"
    by (simp_all add: m_val_Mask_init m_names_Mask_init m_size_Mask_init)
  have "str_items ?m [0..<n] =
        Inr (map (\<lambda>i. m_names ?m ! i) (filter (\<lambda>i. m_val ?m ! i \<noteq> 0) [0..<n]))"
    by (rule str_items_in_range) (simp add: len assms)
  moreover have "filter (\<lambda>i. m_val ?m ! i \<noteq> 0) [0..<n] = filter (bit v) [0..<n]"
    by (rule filter_cong) (simp_all add: m_val_Mask_init)
  ultimately show ?thesis by (simp add: Mask_str_def len)
qed

text \<open>What \<^verbatim>\<open>list.index\<close> returns is the first position of the element.\<close>

lemma index_Inr:
  "index xs x = Inr i \<Longrightarrow> i < length xs \<and> xs ! i = x \<and> x \<notin> set (take i xs)"
proof (induction xs arbitrary: i)
  case Nil
  then show ?case by simp
next
  case (Cons y ys)
  then show ?case by (cases i) (auto split: if_splits sum.splits)
qed

lemma index_distinct: "distinct xs \<Longrightarrow> i < length xs \<Longrightarrow> index xs (xs ! i) = Inr i"
proof (induction xs arbitrary: i)
  case Nil
  then show ?case by simp
next
  case (Cons y ys)
  show ?case
  proof (cases i)
    case 0
    then show ?thesis by simp
  next
    case (Suc j)
    with Cons.prems have "ys ! j \<in> set ys" "y \<notin> set ys" "j < length ys" "distinct ys"
      by auto
    then have "y \<noteq> ys ! j" "index ys (ys ! j) = Inr j"
      using Cons.IH by auto
    then show ?thesis using Suc by simp
  qed
qed

lemma length_names:
  "length FormPropMask_names = 28"
  "length SitePropMask_names = 15"
  "length MorphDataPropMask_names = 33"
  by (simp_all add: FormPropMask_names_def SitePropMask_names_def MorphDataPropMask_names_def)

text \<open>
  C6. For each of the three mask classes, with its declared list of \<open>N\<close> names (\<open>N\<close> is
  28, 15 or 33), and every integer \<open>v\<close>: the constructor gives a mask of \<open>N\<close> flags, flag
  \<open>i\<close> is bit \<open>i\<close> of \<open>v\<close> counted from the least significant bit, and \<^verbatim>\<open>__str__\<close>
  returns the names whose bit is 1, in declared order, joined by a comma and a space.
\<close>

theorem mask_flags_and_rendering:
  assumes "(mk, names, N) \<in>
             {(FormPropMask, FormPropMask_names, 28), (SitePropMask, SitePropMask_names, 15),
              (MorphDataPropMask, MorphDataPropMask_names, 33)}"
  shows "length names = N \<and> m_size (mk v) = N \<and> m_names (mk v) = names \<and>
         length (m_val (mk v)) = N \<and>
         (\<forall>i<N. getitem (m_val (mk v)) i = Inr (of_bool (bit v i))) \<and>
         Mask_str (mk v) = Inr (join '', '' (map (\<lambda>i. names ! i) (filter (bit v) [0..<N])))"
proof -
  have mk: "mk v = Mask_init N names v" and len: "length names = N"
    using assms
    by (auto simp add: FormPropMask_def SitePropMask_def MorphDataPropMask_def length_names)
  have "length (m_val (Mask_init N names v)) = N"
    by (simp add: m_val_Mask_init)
  moreover have "\<forall>i<N. getitem (m_val (Mask_init N names v)) i = Inr (of_bool (bit v i))"
    by (simp add: getitem_val_Mask_init)
  moreover note Mask_str_Mask_init [OF len, of v]
  ultimately show ?thesis
    unfolding mk using len by (simp add: m_names_Mask_init m_size_Mask_init)
qed

theorem mask_flags_and_rendering_witness:
  "getitem (m_val (SitePropMask 5)) 2 = Inr 1 \<and>
   getitem (m_val (SitePropMask 5)) 1 = Inr 0 \<and>
   Mask_str (SitePropMask 5) = Inr ''fName, fID''"
  using mask_flags_and_rendering [of SitePropMask SitePropMask_names 15 5]
  by (simp add: SitePropMask_names_def upt_rec)

text \<open>
  The two masks whose names are all different: a lookup by a declared name gives the bit
  at the position of that name.
\<close>

lemma distinct_names: "distinct SitePropMask_names" "distinct MorphDataPropMask_names"
  by (simp_all add: SitePropMask_names_def MorphDataPropMask_names_def)

lemma SitePropMask_getattr:
  "i < 15 \<Longrightarrow> Mask_getattr (SitePropMask v) (SitePropMask_names ! i) = Inr (of_bool (bit v i))"
  unfolding Mask_getattr_def SitePropMask_def m_names_Mask_init
  by (simp add: index_distinct distinct_names length_names getitem_val_Mask_init)

lemma MorphDataPropMask_getattr:
  "i < 33 \<Longrightarrow>
   Mask_getattr (MorphDataPropMask v) (MorphDataPropMask_names ! i) = Inr (of_bool (bit v i))"
  unfolding Mask_getattr_def MorphDataPropMask_def m_names_Mask_init
  by (simp add: index_distinct distinct_names length_names getitem_val_Mask_init)

text \<open>
  C7. The claim fails for \<^verbatim>\<open>FormPropMask\<close>: positions 6 and 7 of its names are both
  \<^verbatim>\<open>'fBooleanProperties'\<close>, so the lookup of the name at position 7 returns bit 6 for
  every value; and for the value 128, where bit 7 alone is set, flag 7 is 1 and no name
  at all gives 1.
\<close>

theorem FormPropMask_bit7_has_no_name:
  "FormPropMask_names ! 7 = FormPropMask_names ! 6 \<and>
   Mask_getattr (FormPropMask v) (FormPropMask_names ! 7) = Inr (of_bool (bit v 6)) \<and>
   getitem (m_val (FormPropMask 128)) 7 = Inr 1 \<and>
   (\<forall>name. Mask_getattr (FormPropMask 128) name \<noteq> Inr 1)"
proof -
  have a: "FormPropMask_names ! 7 = FormPropMask_names ! 6"
    by (simp add: FormPropMask_names_def)
  have b: "index FormPropMask_names (FormPropMask_names ! 7) = Inr 6"
    by (simp add: FormPropMask_names_def)
  have c: "Mask_getattr (FormPropMask v) (FormPropMask_names ! 7) = Inr (of_bool (bit v 6))"
    unfolding Mask_getattr_def FormPropMask_def m_names_Mask_init b
    by (simp add: getitem_val_Mask_init)
  have d: "getitem (m_val (FormPropMask 128)) 7 = Inr 1"
    unfolding FormPropMask_def by (simp add: getitem_val_Mask_init)
  have e: "Mask_getattr (FormPropMask 128) name \<noteq> Inr 1" for name
  proof
    assume h: "Mask_getattr (FormPropMask 128) name = Inr 1"
    then obtain i where i: "index FormPropMask_names name = Inr i"
      and g: "getitem (m_val (Mask_init 28 FormPropMask_names 128)) i = Inr 1"
      unfolding Mask_getattr_def FormPropMask_def m_names_Mask_init
      by (auto split: sum.splits)
    from index_Inr [OF i] have lt: "i < 28"
      and nin: "name \<notin> set (take i FormPropMask_names)"
      and nm: "FormPropMask_names ! i = name"
      by (simp_all add: FormPropMask_names_def)
    from g lt have "bit (128::int) i"
      by (simp add: getitem_val_Mask_init split: if_splits)
    then have "i = 7"
      using bit_exp_iff [where ?'a = int, of 7 i] by simp
    with nin nm show False
      by (simp add: FormPropMask_names_def)
  qed
  from a c d e show ?thesis by blast
qed

text \<open>
  C10. \<^verbatim>\<open>len\<close> of a mask of any of the three classes, built from any value, raises: the
  name \<^verbatim>\<open>size\<close> is not an attribute, \<^verbatim>\<open>__getattr__\<close> looks it up among the flag names,
  and it is none of them.
\<close>

theorem Mask_len_always_raises:
  "Mask_len (FormPropMask v) = Inl ValueError \<and>
   Mask_len (SitePropMask v) = Inl ValueError \<and>
   Mask_len (MorphDataPropMask v) = Inl ValueError"
  by (simp add: Mask_len_def Mask_getattr_def FormPropMask_def SitePropMask_def
      MorphDataPropMask_def m_names_Mask_init FormPropMask_names_def SitePropMask_names_def
      MorphDataPropMask_names_def)

theorem Mask_len_always_raises_witness:
  "Mask_len (FormPropMask 1) = Inl ValueError \<and> Mask_len (SitePropMask 0) = Inl ValueError"
  using Mask_len_always_raises [of 1] Mask_len_always_raises [of 0] by simp

subsection \<open>The cursor\<close>

lemmas run_defs = with_region_def sbind_def will_jump_to_def will_pad_def enter_def leave_def
  exit_def skip_def read_def source_read_def return_def lift_def ExtendedStream_init_def
  raise_error_def

lemma read_eq:
  "read n s = (Inr (fst (source_read n (stream s))),
               s\<lparr>pos := pos s + n, stream := snd (source_read n (stream s))\<rparr>)"
  by (simp add: read_def split: prod.splits)

lemma skip_eq:
  "skip n s = (Inr (), s\<lparr>pos := pos s + n, stream := snd (source_read n (stream s))\<rparr>)"
  by (simp add: skip_def sbind_def read_eq return_def)

text \<open>
  C1, as the code has it. \<^verbatim>\<open>read\<close> has no check of the bytes that remain and never
  raises: for \<open>n \<ge> 0\<close> it returns the next \<open>n\<close> bytes when that many remain and all
  the remaining bytes otherwise, and it adds \<open>n\<close> to the position in both cases.
\<close>

theorem read_returns_available_bytes:
  assumes "0 \<le> n"
  shows "\<exists>data s'. read n s = (Inr data, s') \<and> data = take (nat n) (stream s) \<and>
           stream s' = drop (nat n) (stream s) \<and> pos s' = pos s + n \<and> jumps s' = jumps s \<and>
           length data = min (nat n) (length (stream s)) \<and>
           (nat n \<le> length (stream s) \<longrightarrow> length data = nat n)"
  using assms by (simp add: read_eq source_read_def min_def)

theorem read_returns_available_bytes_witness:
  "read 2 (ExtendedStream_init [1, 2, 3] ''f'') =
     (Inr [1, 2], \<lparr>pos = 2, jumps = [], stream = [3], path = ''f'', next_jump = None\<rparr>)"
  using read_returns_available_bytes [of 2 "ExtendedStream_init [1, 2, 3] ''f''"]
  by (simp add: run_defs)

text \<open>
  C1 as stated fails: a read of 4 bytes from a stream of 2 bytes returns the 2 bytes,
  raises nothing and moves the position to 4.
\<close>

theorem read_short_counterexample:
  "read 4 (ExtendedStream_init [1, 2] ''f'') =
     (Inr [1, 2], \<lparr>pos = 4, jumps = [], stream = [], path = ''f'', next_jump = None\<rparr>)"
  by (simp add: run_defs)

text \<open>
  C2, as the code has it. Closing a jump region of size \<open>k\<close> that started at \<open>start\<close>
  never raises, removes the region and leaves the position at \<open>start + k\<close>, whatever
  was consumed inside. When at most \<open>k\<close> bytes were consumed, the rest of the \<open>k\<close>
  bytes is read as filler; when more were consumed, the position moves back and the
  byte source is read to its end.
\<close>

theorem exit_jump_lands_at_declared_end:
  assumes "jumps s = js @ [(start, True, k)]"
  shows "\<exists>s'. exit None s = (Inr (), s') \<and> pos s' = start + k \<and> jumps s' = js \<and>
           (pos s - start \<le> k \<longrightarrow> stream s' = drop (nat (k - (pos s - start))) (stream s)) \<and>
           (k < pos s - start \<longrightarrow> stream s' = [])"
  using assms by (auto simp add: exit_def skip_eq source_read_def Let_def)

theorem exit_jump_lands_at_declared_end_witness:
  "exit None \<lparr>pos = 3, jumps = [(0, False, 4), (1, True, 6)], stream = [4, 5, 6, 7, 8],
               path = ''f'', next_jump = Some (True, 6)\<rparr> =
   (Inr (), \<lparr>pos = 7, jumps = [(0, False, 4)], stream = [8], path = ''f'',
              next_jump = Some (True, 6)\<rparr>)"
  using exit_jump_lands_at_declared_end
    [of "\<lparr>pos = 3, jumps = [(0, False, 4), (1, True, 6)], stream = [4, 5, 6, 7, 8],
          path = ''f'', next_jump = Some (True, 6)\<rparr>" "[(0, False, 4)]" 1 6]
  by (simp add: run_defs)

text \<open>
  C2 as stated fails in its second half: a jump region of size 1 in which 3 bytes are
  read closes without an exception.
\<close>

theorem jump_overrun_counterexample:
  "with_region (will_jump_to 1) (skip 3) (ExtendedStream_init [1, 2, 3, 4, 5] ''f'') =
   (Inr (), \<lparr>pos = 1, jumps = [], stream = [], path = ''f'', next_jump = Some (True, 1)\<rparr>)"
  by (simp add: run_defs)

text \<open>A call within the declared sizes does not move the position back.\<close>

lemma apply_op_pos:
  assumes "op_within c s"
  shows "pos s \<le> pos (snd (apply_op c s))"
proof (cases c)
  case (Read n)
  with assms show ?thesis by (simp add: op_within_def skip_eq)
next
  case (OpenRegion jt n)
  then show ?thesis
    by (simp add: sbind_def will_jump_to_def will_pad_def enter_def)
next
  case CloseRegion
  show ?thesis
  proof (cases "jumps s = []")
    case True
    with CloseRegion show ?thesis by (simp add: exit_def)
  next
    case False
    obtain start jt n where l: "last (jumps s) = (start, jt, n)"
      by (cases "last (jumps s)")
    show ?thesis
    proof (cases jt)
      case True
      with CloseRegion False l assms have "pos s - start \<le> n"
        by (simp add: op_within_def)
      then have "pos s \<le> pos s + (n - (pos s - start))"
        by arith
      with CloseRegion False l True show ?thesis
        by (simp add: exit_def skip_eq Let_def)
    next
      case jf: False
      from CloseRegion False l jf assms have n0: "0 \<le> n"
        by (simp add: op_within_def)
      have "(pos s - start) mod n \<le> n" if "0 < n"
        using that by (intro less_imp_le pos_mod_bound)
      with CloseRegion False l jf n0 show ?thesis
        by (cases "n = 0") (simp_all add: exit_def skip_eq Let_def)
    qed
  qed
qed

lemma positions_hd: "hd (positions cs s) = pos s" "positions cs s \<noteq> []"
  by (cases cs; simp)+

lemma sorted_positions: "all_within cs s \<Longrightarrow> sorted (positions cs s)"
proof (induction cs arbitrary: s)
  case Nil
  then show ?case by simp
next
  case (Cons c cs)
  obtain r s' where step: "apply_op c s = (r, s')"
    by (cases "apply_op c s")
  from Cons.prems have w: "op_within c s" by simp
  from apply_op_pos [OF w] step have le: "pos s \<le> pos s'" by simp
  show ?case
  proof (cases r)
    case (Inl e)
    with step le show ?thesis by simp
  next
    case (Inr u)
    with step Cons.prems have "all_within cs s'" by simp
    then have srt: "sorted (positions cs s')" by (rule Cons.IH)
    have "\<forall>x \<in> set (positions cs s'). pos s \<le> x"
    proof
      fix x assume x: "x \<in> set (positions cs s')"
      have "positions cs s' = pos s' # tl (positions cs s')"
        using positions_hd [of cs s'] by (cases "positions cs s'") simp_all
      with srt x have "pos s' \<le> x"
        by (metis order_refl set_ConsD sorted_simps(2))
      with le show "pos s \<le> x" by simp
    qed
    with srt step Inr show ?thesis by simp
  qed
qed

text \<open>
  C3, as the code has it. Along every sequence of calls that stays within the declared
  sizes (reads of a non-negative size, no jump region closed after more bytes than its
  size were consumed in it, no negative padding modulus) the position never decreases.
  In every state, opening a region puts it at the end of \<^verbatim>\<open>_jumps\<close>, closing removes the
  last region of \<^verbatim>\<open>_jumps\<close>, and a read leaves \<^verbatim>\<open>_jumps\<close> alone: the region that is closed
  is always the one opened last among those still open.
\<close>

theorem position_monotone_and_lifo:
  assumes "all_within cs s"
  shows "sorted (positions cs s) \<and>
         (\<forall>jump_type n. jumps (snd (apply_op (OpenRegion jump_type n) s)) =
            jumps s @ [(pos s, jump_type, n)]) \<and>
         (jumps s \<noteq> [] \<longrightarrow> jumps (snd (apply_op CloseRegion s)) = butlast (jumps s)) \<and>
         (\<forall>n. jumps (snd (apply_op (Read n) s)) = jumps s)"
proof -
  have a: "jumps (snd (apply_op (OpenRegion jump_type n) s)) = jumps s @ [(pos s, jump_type, n)]"
    for jump_type n
    by (simp add: sbind_def will_jump_to_def will_pad_def enter_def)
  have b: "jumps (snd (apply_op CloseRegion s)) = butlast (jumps s)" if "jumps s \<noteq> []"
    using that by (simp add: exit_def skip_eq Let_def split: prod.splits)
  have c: "jumps (snd (apply_op (Read n) s)) = jumps s" for n
    by (simp add: skip_eq)
  from sorted_positions [OF assms] a b c show ?thesis by blast
qed

theorem position_monotone_and_lifo_witness:
  "positions [OpenRegion True 4, Read 3, CloseRegion, OpenRegion False 4, Read 1, CloseRegion]
     (ExtendedStream_init [1, 2, 3, 4, 5, 6, 7, 8, 9] ''f'') = [0, 0, 3, 4, 4, 5, 8] \<and>
   sorted [0, 0, 3, 4, 4, 5, 8 :: int]"
  using position_monotone_and_lifo
    [of "[OpenRegion True 4, Read 3, CloseRegion, OpenRegion False 4, Read 1, CloseRegion]"
        "ExtendedStream_init [1, 2, 3, 4, 5, 6, 7, 8, 9] ''f''"]
  by (simp add: run_defs op_within_def)

text \<open>
  C3 as stated fails: after 3 bytes are read in a jump region of size 1, closing the
  region moves the position from 3 back to 1.
\<close>

theorem position_moves_back_counterexample:
  "positions [OpenRegion True 1, Read 3, CloseRegion]
     (ExtendedStream_init [1, 2, 3, 4, 5] ''f'') = [0, 0, 3, 1] \<and>
   \<not> sorted [0, 0, 3, 1 :: int]"
  by (simp add: run_defs)

text \<open>
  C8, as the code has it. When the body of a \<^verbatim>\<open>with\<close> statement raises, the statement
  raises the same exception and leaves the stream exactly as the body left it:
  \<^verbatim>\<open>__exit__\<close> changes nothing, so no filler is read, the position stays, and the entry
  of the region stays in \<^verbatim>\<open>_jumps\<close>.
\<close>

theorem error_in_region_skips_closing:
  assumes "sbind ctx (\<lambda>_. enter) s = (Inr (), s1)" and "body s1 = (Inl e, s2)"
  shows "with_region ctx body s = (Inl e, s2) \<and> exit (Some e) s2 = (Inr (), s2)"
  using assms by (simp add: with_region_def leave_def exit_def)

theorem error_in_region_skips_closing_witness:
  "with_region (will_pad 4) (raise_error (Reason ''bad'') 0) (ExtendedStream_init [1, 2] ''f'') =
   (Inl (OleFormParsingError ''f'' 0 (Reason ''bad'')),
    \<lparr>pos = 0, jumps = [(0, False, 4)], stream = [1, 2], path = ''f'',
     next_jump = Some (False, 4)\<rparr>)"
  using error_in_region_skips_closing
    [of "will_pad 4" "ExtendedStream_init [1, 2] ''f''"
        "\<lparr>pos = 0, jumps = [(0, False, 4)], stream = [1, 2], path = ''f'',
          next_jump = Some (False, 4)\<rparr>"
        "raise_error (Reason ''bad'') 0" "OleFormParsingError ''f'' 0 (Reason ''bad'')"
        "\<lparr>pos = 0, jumps = [(0, False, 4)], stream = [1, 2], path = ''f'',
          next_jump = Some (False, 4)\<rparr>"]
  by (simp add: run_defs)

text \<open>
  C8 as stated fails in one part: the entry of the region is not removed. After an
  exception one byte into a jump region of size 4, \<^verbatim>\<open>_jumps\<close> still holds the region.
\<close>

theorem region_kept_on_error_counterexample:
  "with_region (will_jump_to 4) (sbind (skip 1) (\<lambda>_. raise_error (Reason ''bad'') 0))
     (ExtendedStream_init [1, 2, 3, 4, 5] ''f'') =
   (Inl (OleFormParsingError ''f'' 1 (Reason ''bad'')),
    \<lparr>pos = 1, jumps = [(0, True, 4)], stream = [2, 3, 4, 5], path = ''f'',
     next_jump = Some (True, 4)\<rparr>)"
  by (simp add: run_defs)

subsection \<open>CountOfBytesWithCompressionFlag\<close>

lemmas unpack_defs = unpack_def unpacks_def struct_unpack_def code_width_def getitem_def

text \<open>
  C4. The values 0 and 0x80000005 decode to 0 and 5. For 0x00000005 the code reaches
  line 149, where the misspelt method name raises \<^verbatim>\<open>AttributeError\<close>: the exception is
  not the parser's \<^verbatim>\<open>OleFormParsingError\<close>.
\<close>

theorem CompressedCount_uncompressed_raises_AttributeError:
  "fst (consume_CountOfBytesWithCompressionFlag (ExtendedStream_init [0, 0, 0, 0] p)) = Inr 0 \<and>
   fst (consume_CountOfBytesWithCompressionFlag (ExtendedStream_init [5, 0, 0, 0x80] p)) = Inr 5 \<and>
   fst (consume_CountOfBytesWithCompressionFlag (ExtendedStream_init [5, 0, 0, 0] p)) =
     Inl (AttributeError ''aise_error'') \<and>
   (\<forall>path' offset why.
      fst (consume_CountOfBytesWithCompressionFlag (ExtendedStream_init [5, 0, 0, 0] p)) \<noteq>
        Inl (OleFormParsingError path' offset why))"
  by (simp add: consume_CountOfBytesWithCompressionFlag_def unpack_defs run_defs)

subsection \<open>The loop over the depth and type records\<close>

lemma unpack_fields_length:
  "unpack_fields little cs data = Some vs \<Longrightarrow> length cs \<le> length data"
proof (induction cs arbitrary: data vs)
  case Nil
  then show ?case by (simp split: if_splits)
next
  case (Cons c cs)
  from Cons.prems obtain w vs' where w: "code_width c = Some w" and len: "w \<le> length data"
    and rest: "unpack_fields little cs (drop w data) = Some vs'"
    by (auto split: option.splits if_splits)
  from w have "1 \<le> w" by (auto simp add: code_width_def split: if_splits)
  moreover from Cons.IH [OF rest] have "length cs \<le> length data - w" by simp
  ultimately show ?case using len by simp
qed

lemma unpacks_BB_consumes:
  assumes "unpacks ''<BB'' 2 s = (Inr vs, s')"
  shows "length (stream s') + 2 \<le> length (stream s)"
proof -
  from assms have u: "struct_unpack ''<BB'' (take 2 (stream s)) = Inr vs"
    and s': "s' = s\<lparr>pos := pos s + 2, stream := drop 2 (stream s)\<rparr>"
    by (auto simp add: unpacks_def sbind_def read_eq source_read_def lift_def)
  from u obtain vs' where "unpack_fields True ''BB'' (take 2 (stream s)) = Some vs'"
    by (auto simp add: struct_unpack_def split: option.splits)
  from unpack_fields_length [OF this] have "2 \<le> length (stream s)" by simp
  with s' show ?thesis by simp
qed

lemma check_value_stream:
  "check_value name format n expected s = (r, s') \<Longrightarrow> 0 \<le> n \<Longrightarrow>
   length (stream s') \<le> length (stream s)"
  by (auto simp add: check_value_def check_values_def unpacks_def sbind_def read_eq
      source_read_def lift_def raise_error_def return_def split: sum.splits if_splits)

lemma consume_FormObjectDepthTypeCount_consumes:
  assumes "consume_FormObjectDepthTypeCount s = (Inr n, s')"
  shows "length (stream s') < length (stream s)"
proof -
  obtain r s1 where u: "unpacks ''<BB'' 2 s = (r, s1)"
    by (cases "unpacks ''<BB'' 2 s")
  with assms obtain vs where r: "r = Inr vs"
    by (cases r) (auto simp add: consume_FormObjectDepthTypeCount_def sbind_def)
  from unpacks_BB_consumes u r have l1: "length (stream s1) + 2 \<le> length (stream s)"
    by simp
  from assms u r obtain depth mixed where vs: "vs = [depth, mixed]"
    by (auto simp add: consume_FormObjectDepthTypeCount_def sbind_def lift_def
        split: list.splits)
  show ?thesis
  proof (cases "mixed AND 0x80 \<noteq> 0")
    case True
    obtain r2 s2 where c: "check_value ''FormObjectDepthTypeCount (SITE_TYPE)'' ''<B'' 1 1 s1 = (r2, s2)"
      by (cases "check_value ''FormObjectDepthTypeCount (SITE_TYPE)'' ''<B'' 1 1 s1")
    from check_value_stream [OF c] have l2: "length (stream s2) \<le> length (stream s1)" by simp
    from assms u r vs True c have "s' = s2"
      by (cases r2) (auto simp add: consume_FormObjectDepthTypeCount_def sbind_def return_def)
    with l1 l2 show ?thesis by simp
  next
    case False
    with assms u r vs have "s' = s1"
      by (auto simp add: consume_FormObjectDepthTypeCount_def sbind_def return_def
          raise_error_def split: if_splits)
    with l1 show ?thesis by simp
  qed
qed

lemma depth_type_loop_total:
  "\<exists>r s'. depth_type_loop n s = Some (r, s') \<and>
     (case r of Inl e \<Rightarrow> True | Inr remaining \<Rightarrow> remaining \<le> 0)"
proof (induction "length (stream s)" arbitrary: s n rule: less_induct)
  case less
  show ?case
  proof (cases "n > 0")
    case False
    then show ?thesis by (subst depth_type_loop.simps) simp
  next
    case True
    obtain r s1 where c: "consume_FormObjectDepthTypeCount s = (r, s1)"
      by (cases "consume_FormObjectDepthTypeCount s")
    show ?thesis
    proof (cases r)
      case (Inl e)
      with True c show ?thesis by (subst depth_type_loop.simps) simp
    next
      case (Inr k)
      with c have lt: "length (stream s1) < length (stream s)"
        by (simp add: consume_FormObjectDepthTypeCount_consumes)
      from less [OF lt, of "n - k"] obtain r' s' where
        l: "depth_type_loop (n - k) s1 = Some (r', s')"
        and p: "(case r' of Inl e \<Rightarrow> True | Inr remaining \<Rightarrow> remaining \<le> 0)"
        by blast
      have "depth_type_loop n s = Some (r', s')"
        using True c Inr l by (subst depth_type_loop.simps) simp
      then show ?thesis using p by simp
    qed
  qed
qed

text \<open>Three records with the counts 2, 0 and 1; and records of count 0 up to the end of the stream.\<close>

lemma depth_example:
  "depth_type_loop 3 (ExtendedStream_init [0, 0x82, 1, 0, 0x80, 1, 0, 1, 9] ''f'') =
     Some (Inr 0, \<lparr>pos = 8, jumps = [], stream = [9], path = ''f'', next_jump = None\<rparr>)"
  by code_simp

lemma depth_example2:
  "depth_type_loop 1 (ExtendedStream_init [0, 0x80, 1, 0, 0x80, 1, 0, 0x80] ''f'') =
     Some (Inl StructError, \<lparr>pos = 9, jumps = [], stream = [], path = ''f'', next_jump = None\<rparr>)"
  by code_simp

text \<open>
  C9. For every stream and every \<^verbatim>\<open>CountOfSites\<close> the loop over the depth and type
  records ends, with an exception or with a remaining count that is not positive: the
  counts it subtracted have reached \<^verbatim>\<open>CountOfSites\<close>. With no site to account for it
  decodes nothing; otherwise it decodes one record, stops if that raises, and goes on
  with the count of the record subtracted. A record whose count is 0 makes no progress
  in the count, but every record consumes bytes of the stream.
\<close>

theorem depth_type_loop_terminates:
  "(\<exists>r s'. depth_type_loop CountOfSites s = Some (r, s') \<and>
      (case r of Inl e \<Rightarrow> True | Inr remaining \<Rightarrow> remaining \<le> 0)) \<and>
   (CountOfSites \<le> 0 \<longrightarrow> depth_type_loop CountOfSites s = Some (Inr CountOfSites, s)) \<and>
   (\<forall>e s1. 0 < CountOfSites \<and> consume_FormObjectDepthTypeCount s = (Inl e, s1) \<longrightarrow>
      depth_type_loop CountOfSites s = Some (Inl e, s1)) \<and>
   (\<forall>k s1. 0 < CountOfSites \<and> consume_FormObjectDepthTypeCount s = (Inr k, s1) \<longrightarrow>
      depth_type_loop CountOfSites s = depth_type_loop (CountOfSites - k) s1)"
proof -
  have a: "depth_type_loop CountOfSites s = Some (Inr CountOfSites, s)" if "CountOfSites \<le> 0"
    using that by (subst depth_type_loop.simps) simp
  have b: "depth_type_loop CountOfSites s = Some (Inl e, s1)"
    if "0 < CountOfSites" "consume_FormObjectDepthTypeCount s = (Inl e, s1)" for e s1
    using that by (subst depth_type_loop.simps) simp
  have c: "depth_type_loop CountOfSites s = depth_type_loop (CountOfSites - k) s1"
    if "0 < CountOfSites" "consume_FormObjectDepthTypeCount s = (Inr k, s1)" for k s1
    using that by (subst depth_type_loop.simps) simp
  from depth_type_loop_total [of CountOfSites s] a b c show ?thesis by blast
qed

theorem depth_type_loop_terminates_witness:
  "depth_type_loop 3 (ExtendedStream_init [0, 0x82, 1, 0, 0x80, 1, 0, 1, 9] ''f'') =
     Some (Inr 0, \<lparr>pos = 8, jumps = [], stream = [9], path = ''f'', next_jump = None\<rparr>) \<and>
   depth_type_loop 1 (ExtendedStream_init [0, 0x80, 1, 0, 0x80, 1, 0, 0x80] ''f'') =
     Some (Inl StructError, \<lparr>pos = 9, jumps = [], stream = [], path = ''f'', next_jump = None\<rparr>) \<and>
   depth_type_loop 0 (ExtendedStream_init [7] ''f'') = Some (Inr 0, ExtendedStream_init [7] ''f'')"
  using depth_type_loop_terminates [of 0 "ExtendedStream_init [7] ''f''"]
    depth_type_loop_terminates [of 3 "ExtendedStream_init [0, 0x82, 1, 0, 0x80, 1, 0, 1, 9] ''f''"]
  by (simp add: depth_example depth_example2)

text \<open>So the callers of the loop return as well.\<close>

lemma leave_total: "\<exists>r' s'. leave (r, s) = (r', s')"
  by simp

lemma depth_type_region_total: "\<exists>r. depth_type_region n s = Some r"
proof -
  obtain r1 s1 where e: "sbind (will_pad 4) (\<lambda>_. enter) s = (r1, s1)"
    by (cases "sbind (will_pad 4) (\<lambda>_. enter) s")
  show ?thesis
  proof (cases r1)
    case (Inl e')
    with e show ?thesis by (simp add: depth_type_region_def)
  next
    case (Inr u)
    from depth_type_loop_total [of n s1] obtain r s' where "depth_type_loop n s1 = Some (r, s')"
      by blast
    with e Inr show ?thesis by (simp add: depth_type_region_def)
  qed
qed

lemma consume_FormControl_total: "\<exists>r. consume_FormControl s = Some r"
proof -
  obtain r1 s1 where h: "FormControl_header s = (r1, s1)"
    by (cases "FormControl_header s")
  show ?thesis
  proof (cases r1)
    case (Inl e)
    with h show ?thesis by (simp add: consume_FormControl_def)
  next
    case (Inr n)
    from depth_type_region_total [of n s1] obtain r2 s2 where "depth_type_region n s1 = Some (r2, s2)"
      by (cases "depth_type_region n s1") auto
    with h Inr show ?thesis by (cases r2) (simp_all add: consume_FormControl_def)
  qed
qed

lemma extract_OleFormVariables_total: "\<exists>r. extract_OleFormVariables ole_file stream_dir = Some r"
proof (cases "ExtendedStream_open ole_file (join ''/'' (stream_dir @ [''f'']))")
  case (Inl e)
  then show ?thesis by (simp add: extract_OleFormVariables_def)
next
  case (Inr control)
  from consume_FormControl_total [of control] obtain r s where
    "consume_FormControl control = Some (r, s)" by (cases "consume_FormControl control") auto
  with Inr show ?thesis
    by (cases r) (auto simp add: extract_OleFormVariables_def split: sum.splits)
qed

subsection \<open>The values of the sites\<close>

lemma attach_values_collect:
  "attach_values variables d =
     (case collect (length (filter (\<lambda>v. v_ClsidCacheIndex v = 23) variables)) consume_MorphDataControl d of
        (Inl e, d') \<Rightarrow> (Inl e, d')
      | (Inr vals, d') \<Rightarrow> (Inr (fill_values variables vals), d'))"
proof (induction variables arbitrary: d)
  case Nil
  then show ?case by (simp add: return_def)
next
  case (Cons var variables)
  show ?case
  proof (cases "v_ClsidCacheIndex var = 23")
    case False
    then show ?thesis
      by (simp add: Cons.IH sbind_def return_def split: prod.splits sum.splits)
  next
    case True
    then show ?thesis
      by (simp add: Cons.IH sbind_def return_def split: prod.splits sum.splits)
  qed
qed

lemma collect_length: "collect n m d = (Inr vals, d') \<Longrightarrow> length vals = n"
  by (induction n arbitrary: d vals) (auto simp add: return_def sbind_def split: prod.splits sum.splits)

lemma fill_values_nth:
  "length vals = length (filter (\<lambda>v. v_ClsidCacheIndex v = 23) variables) \<Longrightarrow>
   length (fill_values variables vals) = length variables \<and>
   (\<forall>i<length variables.
      v_name (fill_values variables vals ! i) = v_name (variables ! i) \<and>
      v_ClsidCacheIndex (fill_values variables vals ! i) = v_ClsidCacheIndex (variables ! i) \<and>
      (v_ClsidCacheIndex (variables ! i) \<noteq> 23 \<longrightarrow> v_value (fill_values variables vals ! i) = None) \<and>
      (v_ClsidCacheIndex (variables ! i) = 23 \<longrightarrow> v_value (fill_values variables vals ! i) \<noteq> None))"
proof (induction variables vals rule: fill_values.induct)
  case (1 vals)
  then show ?case by simp
next
  case (2 var variables vals)
  show ?case
  proof (cases "v_ClsidCacheIndex var = 23")
    case False
    with 2 show ?thesis
      by (auto simp add: set_value_def nth_Cons split: nat.splits)
  next
    case True
    with "2.prems" obtain val rest where vals: "vals = val # rest"
      by (cases vals) auto
    with 2 True show ?thesis
      by (auto simp add: set_value_def nth_Cons split: nat.splits)
  qed
qed


text \<open>A data stream that holds one control, with the value \<^verbatim>\<open>hello\<close>.\<close>

lemma morph_example:
  "consume_MorphDataControl
     (ExtendedStream_init [0, 2, 0x19, 0, 0, 0, 0x40, 0, 0, 0, 0, 0, 5, 0, 0, 0x80,
        0, 0, 0, 0, 0, 0, 0, 0, 0x68, 0x65, 0x6c, 0x6c, 0x6f, 0, 2, 0, 0] ''x/o'') =
   (Inr [0x68, 0x65, 0x6c, 0x6c, 0x6f],
    \<lparr>pos = 33, jumps = [], stream = [], path = ''x/o'', next_jump = Some (False, 4)\<rparr>)"
  by code_simp

text \<open>
  C5. The loop over the sites calls \<^verbatim>\<open>consume_MorphDataControl\<close> once for each site
  whose index is 23, in order, and for no other site: its outcome on the data stream is
  that of as many decodings in a row as there are sites of index 23. If one of them
  raises, so does the loop, with the same exception and stream. Otherwise every site is
  in the result, in order and with its fields; a site of another index has the value
  \<^verbatim>\<open>None\<close> and a site of index 23 has a decoded value. A list without a site of index
  23 never raises and leaves the data stream untouched.
\<close>

theorem unsupported_sites_get_no_value:
  "(case collect (length (filter (\<lambda>v. v_ClsidCacheIndex v = 23) variables))
           consume_MorphDataControl d of
      (Inl e, d') \<Rightarrow> attach_values variables d = (Inl e, d')
    | (Inr vals, d') \<Rightarrow>
        attach_values variables d = (Inr (fill_values variables vals), d') \<and>
        length (fill_values variables vals) = length variables \<and>
        (\<forall>i<length variables.
           v_name (fill_values variables vals ! i) = v_name (variables ! i) \<and>
           v_ClsidCacheIndex (fill_values variables vals ! i) = v_ClsidCacheIndex (variables ! i) \<and>
           (v_ClsidCacheIndex (variables ! i) \<noteq> 23 \<longrightarrow>
              v_value (fill_values variables vals ! i) = None) \<and>
           (v_ClsidCacheIndex (variables ! i) = 23 \<longrightarrow>
              v_value (fill_values variables vals ! i) \<noteq> None))) \<and>
   ((\<forall>v \<in> set variables. v_ClsidCacheIndex v \<noteq> 23) \<longrightarrow>
      attach_values variables d = (Inr (map (\<lambda>v. set_value v None) variables), d))"
proof -
  let ?n = "length (filter (\<lambda>v. v_ClsidCacheIndex v = 23) variables)"
  obtain r d' where c: "collect ?n consume_MorphDataControl d = (r, d')"
    by (cases "collect ?n consume_MorphDataControl d")
  have first: "(case collect ?n consume_MorphDataControl d of
      (Inl e, d') \<Rightarrow> attach_values variables d = (Inl e, d')
    | (Inr vals, d') \<Rightarrow>
        attach_values variables d = (Inr (fill_values variables vals), d') \<and>
        length (fill_values variables vals) = length variables \<and>
        (\<forall>i<length variables.
           v_name (fill_values variables vals ! i) = v_name (variables ! i) \<and>
           v_ClsidCacheIndex (fill_values variables vals ! i) = v_ClsidCacheIndex (variables ! i) \<and>
           (v_ClsidCacheIndex (variables ! i) \<noteq> 23 \<longrightarrow>
              v_value (fill_values variables vals ! i) = None) \<and>
           (v_ClsidCacheIndex (variables ! i) = 23 \<longrightarrow>
              v_value (fill_values variables vals ! i) \<noteq> None)))"
  proof (cases r)
    case (Inl e)
    with c show ?thesis by (simp add: attach_values_collect)
  next
    case (Inr vals)
    with c have "length vals = ?n" by (simp add: collect_length)
    from fill_values_nth [OF this] c Inr show ?thesis
      by (simp add: attach_values_collect)
  qed
  have second: "attach_values variables d = (Inr (map (\<lambda>v. set_value v None) variables), d)"
    if "\<forall>v \<in> set variables. v_ClsidCacheIndex v \<noteq> 23"
    using that by (induction variables) (simp_all add: return_def sbind_def)
  from first second show ?thesis by blast
qed

theorem unsupported_sites_get_no_value_witness:
  "attach_values
     [\<lparr>v_name = [0x41], v_tag = [], v_id = 7, v_tabindex = 2, v_ClsidCacheIndex = 99\<rparr>,
      \<lparr>v_name = [0x42], v_tag = [], v_id = 8, v_tabindex = 3, v_ClsidCacheIndex = 23\<rparr>,
      \<lparr>v_name = [0x43], v_tag = [], v_id = 9, v_tabindex = 4, v_ClsidCacheIndex = 0\<rparr>]
     (ExtendedStream_init [0, 2, 0x19, 0, 0, 0, 0x40, 0, 0, 0, 0, 0, 5, 0, 0, 0x80,
        0, 0, 0, 0, 0, 0, 0, 0, 0x68, 0x65, 0x6c, 0x6c, 0x6f, 0, 2, 0, 0] ''x/o'') =
   (Inr [\<lparr>v_name = [0x41], v_tag = [], v_id = 7, v_tabindex = 2, v_ClsidCacheIndex = 99, v_value = None\<rparr>,
         \<lparr>v_name = [0x42], v_tag = [], v_id = 8, v_tabindex = 3, v_ClsidCacheIndex = 23,
           v_value = Some [0x68, 0x65, 0x6c, 0x6c, 0x6f]\<rparr>,
         \<lparr>v_name = [0x43], v_tag = [], v_id = 9, v_tabindex = 4, v_ClsidCacheIndex = 0, v_value = None\<rparr>],
    \<lparr>pos = 33, jumps = [], stream = [], path = ''x/o'', next_jump = Some (False, 4)\<rparr>)"
  using unsupported_sites_get_no_value
    [of "[\<lparr>v_name = [0x41], v_tag = [], v_id = 7, v_tabindex = 2, v_ClsidCacheIndex = 99\<rparr>,
      \<lparr>v_name = [0x42], v_tag = [], v_id = 8, v_tabindex = 3, v_ClsidCacheIndex = 23\<rparr>,
      \<lparr>v_name = [0x43], v_tag = [], v_id = 9, v_tabindex = 4, v_ClsidCacheIndex = 0\<rparr>]"
     "ExtendedStream_init [0, 2, 0x19, 0, 0, 0, 0x40, 0, 0, 0, 0, 0, 5, 0, 0, 0x80,
        0, 0, 0, 0, 0, 0, 0, 0, 0x68, 0x65, 0x6c, 0x6c, 0x6f, 0, 2, 0, 0] ''x/o''"]
  by (simp add: morph_example sbind_def return_def set_value_def)

end
